theory Spec2Isabelle
  imports Complex_Main "HOL-Library.Sublist"
begin

section \<open>The network security game of \<open>game_theory_network.py\<close>\<close>

text \<open>
  The module plays a repeated two-player game. A session (\<open>NetworkSecurityGame\<close>) owns a
  payoff table, a history and two running scores; a round asks two strategies for a
  decision, looks the pair up in the payoff table, adds the payoffs to the scores and
  appends a record to the history. Three strategy classes are provided:
  \<open>PassiveDefender\<close>, \<open>RandomAttacker\<close> and \<open>EnhancedTitForTat\<close>.
\<close>

subsection \<open>Exceptions\<close>

text \<open>
  The exceptions the modelled code can raise: a missing dictionary key, a division by
  zero, an ordering comparison with \<open>None\<close>, and an index out of range.
\<close>

datatype py_error = KeyError | ZeroDivisionError | TypeError | IndexError

subsection \<open>Decisions and role names\<close>

text \<open>
  Decisions are Python strings, compared only for equality. A string is modelled by the
  bytes of its UTF-8 encoding, which is injective on strings. The four literals of the
  source are, as code points:
  \<^item> \<open>Defend\<close>: U+9632 U+5FA1;
  \<^item> \<open>DoNotDefend\<close>: U+4E0D U+9632 U+5FA1;
  \<^item> \<open>Attack\<close>: U+653B U+51FB;
  \<^item> \<open>DoNotAttack\<close>: U+4E0D U+653B U+51FB.
  The role names are U+9632 U+5B88 U+65B9 (the defender) and U+653B U+51FB U+65B9 (the
  attacker).
\<close>

definition Defend :: string where
  "Defend = [CHR 0xE9, CHR 0x98, CHR 0xB2, CHR 0xE5, CHR 0xBE, CHR 0xA1]"

definition DoNotDefend :: string where
  "DoNotDefend = [CHR 0xE4, CHR 0xB8, CHR 0x8D, CHR 0xE9, CHR 0x98, CHR 0xB2,
                  CHR 0xE5, CHR 0xBE, CHR 0xA1]"

definition Attack :: string where
  "Attack = [CHR 0xE6, CHR 0x94, CHR 0xBB, CHR 0xE5, CHR 0x87, CHR 0xBB]"

definition DoNotAttack :: string where
  "DoNotAttack = [CHR 0xE4, CHR 0xB8, CHR 0x8D, CHR 0xE6, CHR 0x94, CHR 0xBB,
                  CHR 0xE5, CHR 0x87, CHR 0xBB]"

definition defender_role :: string where
  "defender_role = [CHR 0xE9, CHR 0x98, CHR 0xB2, CHR 0xE5, CHR 0xAE, CHR 0x88,
                    CHR 0xE6, CHR 0x96, CHR 0xB9]"

definition attacker_role :: string where
  "attacker_role = [CHR 0xE6, CHR 0x94, CHR 0xBB, CHR 0xE5, CHR 0x87, CHR 0xBB,
                    CHR 0xE6, CHR 0x96, CHR 0xB9]"

subsection \<open>The random source\<close>

text \<open>
  The source draws from the global generator of Python's \<open>random\<close> module. Its state is
  made explicit as the infinite tape of the numbers its next calls will draw; each call
  reads the head of the tape and leaves the tail. \<open>random.random()\<close> returns a multiple of
  \<open>2 ^ -53\<close> in \<open>[0, 1)\<close>; \<open>random.choice(seq)\<close> returns the element of \<open>seq\<close> at a
  drawn index below its length and raises \<open>IndexError\<close> on an empty sequence.
\<close>

type_synonym rng = "nat \<Rightarrow> nat"

definition rng_tail :: "rng \<Rightarrow> rng" where
  "rng_tail g = (\<lambda>n. g (Suc n))"

definition random_random :: "rng \<Rightarrow> real \<times> rng" where
  "random_random g = (real (g 0 mod 2 ^ 53) / 2 ^ 53, rng_tail g)"

definition random_choice :: "'a list \<Rightarrow> rng \<Rightarrow> (py_error + 'a) \<times> rng" where
  "random_choice seq g =
     (if seq = [] then (Inl IndexError, g)
      else (Inr (seq ! (g 0 mod length seq)), rng_tail g))"

subsection \<open>Round records and the session\<close>

text \<open>
  A history entry is the dictionary with the keys \<open>round\<close>, \<open>decisions\<close> and \<open>payoffs\<close>.
  The scores dictionary has exactly the two role names as keys, and only their values
  are ever read or written, so it is modelled by one field for each key.
\<close>

record round_record =
  round :: int
  decisions :: "string \<times> string"
  payoffs :: "int \<times> int"

record game =
  history :: "round_record list"
  score_defender :: int
  score_attacker :: int

text \<open>
  The payoff table is set in the constructor and never written afterwards, so it is a
  constant: a dictionary with four keys.
\<close>

definition payoff_matrix :: "string \<times> string \<rightharpoonup> int \<times> int" where
  "payoff_matrix =
     [(Defend, DoNotAttack) \<mapsto> (3, 3),
      (Defend, Attack) \<mapsto> (- 2, 1),
      (DoNotDefend, Attack) \<mapsto> (- 8, 8),
      (DoNotDefend, DoNotAttack) \<mapsto> (4, 4)]"

definition NetworkSecurityGame_init :: game where
  "NetworkSecurityGame_init = \<lparr>history = [], score_defender = 0, score_attacker = 0\<rparr>"

text \<open>
  A strategy is a callable on the history. It may read the random source and it may
  raise, so it returns a decision or an exception, and the random source it leaves.
\<close>

type_synonym strategy = "round_record list \<Rightarrow> rng \<Rightarrow> (py_error + string) \<times> rng"

text \<open>
  \<open>play_round\<close> returns the exception raised, if any, together with the session and the
  random source as they are when it returns or raises.
\<close>

definition play_round ::
  "strategy \<Rightarrow> strategy \<Rightarrow> game \<times> rng \<Rightarrow> (py_error + unit) \<times> game \<times> rng" where
  "play_round strategy_a strategy_b st =
     (case st of (s, g) \<Rightarrow>
        (case strategy_a (history s) g of
           (Inl e, g1) \<Rightarrow> (Inl e, s, g1)
         | (Inr decision_a, g1) \<Rightarrow>
             (case strategy_b (history s) g1 of
                (Inl e, g2) \<Rightarrow> (Inl e, s, g2)
              | (Inr decision_b, g2) \<Rightarrow>
                  (case payoff_matrix (decision_a, decision_b) of
                     None \<Rightarrow> (Inl KeyError, s, g2)
                   | Some (payoff_a, payoff_b) \<Rightarrow>
                       (Inr (),
                        \<lparr>history = history s @
                           [\<lparr>round = int (length (history s)) + 1,
                             decisions = (decision_a, decision_b),
                             payoffs = (payoff_a, payoff_b)\<rparr>],
                         score_defender = score_defender s + payoff_a,
                         score_attacker = score_attacker s + payoff_b\<rparr>,
                        g2)))))"

text \<open>
  The loop \<open>for _ in range(rounds)\<close>: it stops at the first exception, and
  \<open>range(rounds)\<close> is empty for a negative \<open>rounds\<close>.
\<close>

fun run_rounds ::
  "strategy \<Rightarrow> strategy \<Rightarrow> nat \<Rightarrow> game \<times> rng \<Rightarrow> (py_error + unit) \<times> game \<times> rng" where
  "run_rounds strategy_a strategy_b 0 st = (Inr (), st)"
| "run_rounds strategy_a strategy_b (Suc n) st =
     (case play_round strategy_a strategy_b st of
        (Inl e, st') \<Rightarrow> (Inl e, st')
      | (Inr u, st') \<Rightarrow> run_rounds strategy_a strategy_b n st')"

definition run_game ::
  "strategy \<Rightarrow> strategy \<Rightarrow> int \<Rightarrow> game \<times> rng \<Rightarrow> (py_error + unit) \<times> game \<times> rng" where
  "run_game strategy_a strategy_b rounds st = run_rounds strategy_a strategy_b (nat rounds) st"

subsection \<open>The strategies\<close>

record PassiveDefender =
  defense_prob :: real

text \<open>The constructors store their arguments and raise nothing.\<close>

definition PassiveDefender_init :: "real \<Rightarrow> py_error + PassiveDefender" where
  "PassiveDefender_init p = Inr \<lparr>defense_prob = p\<rparr>"

definition PassiveDefender_make_decision :: "PassiveDefender \<Rightarrow> strategy" where
  "PassiveDefender_make_decision self h g =
     (case random_random g of
        (u, g') \<Rightarrow> (Inr (if u < defense_prob self then Defend else DoNotDefend), g'))"

definition RandomAttacker_make_decision :: strategy where
  "RandomAttacker_make_decision h g = random_choice [Attack, DoNotAttack] g"

record EnhancedTitForTat =
  is_defender :: bool
  memory_size :: int
  role :: string
  opponent_history :: "string list"

definition EnhancedTitForTat_init :: "bool \<Rightarrow> int \<Rightarrow> py_error + EnhancedTitForTat" where
  "EnhancedTitForTat_init d m =
     Inr \<lparr>is_defender = d, memory_size = m,
          role = (if d then defender_role else attacker_role),
          opponent_history = []\<rparr>"

text \<open>
  The slice \<open>xs[start:]\<close>: a negative \<open>start\<close> counts from the end, and the start is
  clamped to the list.
\<close>

definition py_slice_from :: "int \<Rightarrow> 'a list \<Rightarrow> 'a list" where
  "py_slice_from start xs =
     (let n = int (length xs);
          i = (if start < 0 then max (start + n) 0 else min start n)
      in drop (nat i) xs)"

text \<open>
  The opponent's decision in a record: index 1 of the pair for the defender, index 0 for
  the attacker.
\<close>

definition opponent_move :: "EnhancedTitForTat \<Rightarrow> round_record \<Rightarrow> string" where
  "opponent_move self h = (if \<not> is_defender self then fst (decisions h) else snd (decisions h))"

definition is_aggressive :: "EnhancedTitForTat \<Rightarrow> string \<Rightarrow> bool" where
  "is_aggressive self move =
     ((is_defender self \<and> move = Attack) \<or> (\<not> is_defender self \<and> move = Defend))"

text \<open>
  \<open>analyze_pattern\<close> returns \<open>None\<close> on an empty history and the rate otherwise. The
  quotient of the two integers is a float in the source; it is modelled by the exact
  quotient, which compares with the literals \<open>0.7\<close> and \<open>0.3\<close> as the float does for
  every window shorter than \<open>2 ^ 49\<close> records: a quotient \<open>k / n\<close> other than \<open>7 / 10\<close>
  lies at least \<open>1 / (10 * n)\<close> away from it, far more than the rounding error, and
  \<open>7 / 10\<close> itself is rounded to the literal (likewise for \<open>3 / 10\<close>).
\<close>

definition EnhancedTitForTat_analyze_pattern ::
  "EnhancedTitForTat \<Rightarrow> round_record list \<Rightarrow> py_error + real option" where
  "EnhancedTitForTat_analyze_pattern self h =
     (if h = [] then Inr None
      else
        (let recent_moves = map (opponent_move self) (py_slice_from (- memory_size self) h);
             aggressive_count = length (filter (is_aggressive self) recent_moves)
         in if length recent_moves = 0 then Inl ZeroDivisionError
            else Inr (Some (real aggressive_count / real (length recent_moves)))))"

text \<open>
  An ordering comparison of the rate with a float literal raises \<open>TypeError\<close> when the
  rate is \<open>None\<close>.
\<close>

definition rate_gt :: "real option \<Rightarrow> real \<Rightarrow> py_error + bool" where
  "rate_gt r c = (case r of None \<Rightarrow> Inl TypeError | Some x \<Rightarrow> Inr (x > c))"

definition rate_lt :: "real option \<Rightarrow> real \<Rightarrow> py_error + bool" where
  "rate_lt r c = (case r of None \<Rightarrow> Inl TypeError | Some x \<Rightarrow> Inr (x < c))"

text \<open>
  \<open>make_decision\<close>: the \<open>or\<close> of the source evaluates the comparison of the rate only when
  the test of the opponent's last move fails, and the random source is read only in
  the two \<open>else\<close> branches. The float literals \<open>0.2\<close> and \<open>0.8\<close> are written as the
  fractions \<open>2 / 10\<close> and \<open>8 / 10\<close>; a draw is a multiple of \<open>2 ^ -53\<close>, and it is below
  the fraction exactly when it is below the float (lemmas \<open>draw_below_literal_02\<close> and
  \<open>draw_below_literal_08\<close>).
\<close>

definition EnhancedTitForTat_make_decision :: "EnhancedTitForTat \<Rightarrow> strategy" where
  "EnhancedTitForTat_make_decision self h g =
     (if h = [] then (Inr (if is_defender self then Defend else DoNotAttack), g)
      else
        (case EnhancedTitForTat_analyze_pattern self h of
           Inl e \<Rightarrow> (Inl e, g)
         | Inr aggressive_rate \<Rightarrow>
             (let opponent_last_move = opponent_move self (last h) in
              if is_defender self then
                (if opponent_last_move = Attack then (Inr Defend, g)
                 else
                   (case rate_gt aggressive_rate (7 / 10) of
                      Inl e \<Rightarrow> (Inl e, g)
                    | Inr True \<Rightarrow> (Inr Defend, g)
                    | Inr False \<Rightarrow>
                        (case random_random g of
                           (u, g') \<Rightarrow> (Inr (if u < 2 / 10 then DoNotDefend else Defend), g'))))
              else
                (if opponent_last_move = DoNotDefend then (Inr Attack, g)
                 else
                   (case rate_lt aggressive_rate (3 / 10) of
                      Inl e \<Rightarrow> (Inl e, g)
                    | Inr True \<Rightarrow> (Inr Attack, g)
                    | Inr False \<Rightarrow>
                        (case random_random g of
                           (u, g') \<Rightarrow> (Inr (if u < 8 / 10 then DoNotAttack else Attack), g')))))))"

text \<open>
  The three classes share the method \<open>make_decision\<close>; the driver wraps an object as
  \<open>lambda h: obj.make_decision(h)\<close>.
\<close>

datatype policy =
  Passive PassiveDefender
| Random
| TitForTat EnhancedTitForTat

fun policy_strategy :: "policy \<Rightarrow> strategy" where
  "policy_strategy (Passive self) = PassiveDefender_make_decision self"
| "policy_strategy Random = RandomAttacker_make_decision"
| "policy_strategy (TitForTat self) = EnhancedTitForTat_make_decision self"

subsection \<open>The payoff series read by \<open>plot_results\<close>\<close>

text \<open>
  \<open>plot_results\<close> extracts the two series of payoffs from the history and plots them
  with their running sums (\<open>np.cumsum\<close>).
\<close>

definition payoffs_a :: "round_record list \<Rightarrow> int list" where
  "payoffs_a h = map (\<lambda>x. fst (payoffs x)) h"

definition payoffs_b :: "round_record list \<Rightarrow> int list" where
  "payoffs_b h = map (\<lambda>x. snd (payoffs x)) h"

fun cumsum_from :: "int \<Rightarrow> int list \<Rightarrow> int list" where
  "cumsum_from acc [] = []"
| "cumsum_from acc (x # xs) = (acc + x) # cumsum_from (acc + x) xs"

definition cumsum :: "int list \<Rightarrow> int list" where
  "cumsum xs = cumsum_from 0 xs"

subsection \<open>Notions used to state the properties\<close>

text \<open>A strategy that returns the same decision whatever the history, and reads no draw.\<close>

definition constant_strategy :: "string \<Rightarrow> strategy" where
  "constant_strategy d = (\<lambda>h g. (Inr d, g))"

text \<open>The random source whose every draw is \<open>k\<close>.\<close>

definition constant_tape :: "nat \<Rightarrow> rng" where
  "constant_tape k = (\<lambda>n. k)"

text \<open>
  The aggressive rate in the words of the specification: the window is the last
  \<open>min(memoryWindow, |history|)\<close> records; the opponent's action of a record is the
  attacker's for a defender and the defender's for an attacker; it is aggressive when
  it is Attack (for a defender) or Defend (for an attacker); the rate is the number of
  aggressive actions in the window divided by the size of the window.
\<close>

definition spec_window :: "nat \<Rightarrow> 'a list \<Rightarrow> 'a list" where
  "spec_window memoryWindow h =
     drop (length h - min memoryWindow (length h)) h"

definition spec_opponent_action :: "bool \<Rightarrow> round_record \<Rightarrow> string" where
  "spec_opponent_action defender x = (if defender then snd (decisions x) else fst (decisions x))"

definition spec_aggressive :: "bool \<Rightarrow> string \<Rightarrow> bool" where
  "spec_aggressive defender a = (if defender then a = Attack else a = Defend)"

definition spec_aggressiveRate :: "bool \<Rightarrow> nat \<Rightarrow> round_record list \<Rightarrow> real" where
  "spec_aggressiveRate defender memoryWindow h =
     real (length (filter (spec_aggressive defender)
             (map (spec_opponent_action defender) (spec_window memoryWindow h))))
     / real (min memoryWindow (length h))"

text \<open>
  Two random sources agree on their first \<open>k\<close> draws.
\<close>

definition agree_upto :: "nat \<Rightarrow> rng \<Rightarrow> rng \<Rightarrow> bool" where
  "agree_upto k g1 g2 = (map g1 [0..<k] = map g2 [0..<k])"

text \<open>
  A history of two rounds, the second of which the attacker attacked, and a defender
  constructed as \<open>EnhancedTitForTat(is_defender=True, memory_size=3)\<close>.
\<close>

definition sample_history :: "round_record list" where
  "sample_history =
     [\<lparr>round = 1, decisions = (Defend, DoNotAttack), payoffs = (3, 3)\<rparr>,
      \<lparr>round = 2, decisions = (Defend, Attack), payoffs = (- 2, 1)\<rparr>]"

definition sample_defender :: EnhancedTitForTat where
  "sample_defender =
     \<lparr>is_defender = True, memory_size = 3, role = defender_role, opponent_history = []\<rparr>"

text \<open>
  The defender constructed as \<open>PassiveDefender(defense_prob=1.0)\<close>, and the records a
  round can append when the defender defends.
\<close>

definition sure_defender :: PassiveDefender where
  "sure_defender = \<lparr>defense_prob = 1\<rparr>"

definition defended_record :: "round_record \<Rightarrow> bool" where
  "defended_record x =
     (fst (decisions x) = Defend \<and> (payoffs x = (3, 3) \<or> payoffs x = (- 2, 1)))"

text \<open>The random source after \<open>k\<close> draws.\<close>

definition rng_drop :: "nat \<Rightarrow> rng \<Rightarrow> rng" where
  "rng_drop k g = (\<lambda>n. g (n + k))"

section \<open>Properties\<close>

subsection \<open>The float literals compared with a draw\<close>

text \<open>
  The float written \<open>0.2\<close> is \<open>7205759403792794 / 2 ^ 55\<close> and the float written \<open>0.8\<close>
  is \<open>7205759403792794 / 2 ^ 53\<close>. No draw lies between a literal and the fraction it
  stands for, so the comparisons of the model decide as those of the source.
\<close>

lemma draw_below_literal_02:
  "(fst (random_random g) < 2 / 10) = (fst (random_random g) < 7205759403792794 / 2 ^ 55)"
proof -
  let ?k = "g 0 mod 2 ^ 53"
  have a: "(real ?k / 2 ^ 53 < 2 / 10) = (?k \<le> 1801439850948198)"
  proof -
    have "(real ?k / 2 ^ 53 < 2 / 10) = (real ?k * 10 < 2 * 2 ^ 53)"
      by (simp add: field_simps)
    also have "\<dots> = (?k * 10 < 2 * 2 ^ 53)"
      by (metis (mono_tags, lifting) of_nat_less_iff of_nat_mult of_nat_numeral of_nat_power)
    also have "\<dots> = (?k \<le> 1801439850948198)"
      by simp arith
    finally show ?thesis .
  qed
  have b: "(real ?k / 2 ^ 53 < 7205759403792794 / 2 ^ 55) = (?k \<le> 1801439850948198)"
  proof -
    have "(real ?k / 2 ^ 53 < 7205759403792794 / 2 ^ 55) = (real ?k * 4 < 7205759403792794)"
      by (simp add: field_simps)
    also have "\<dots> = (?k * 4 < 7205759403792794)"
      by (metis (mono_tags, lifting) of_nat_less_iff of_nat_mult of_nat_numeral)
    also have "\<dots> = (?k \<le> 1801439850948198)"
      by simp arith
    finally show ?thesis .
  qed
  show ?thesis by (simp only: random_random_def fst_conv a b)
qed

lemma draw_below_literal_08:
  "(fst (random_random g) < 8 / 10) = (fst (random_random g) < 7205759403792794 / 2 ^ 53)"
proof -
  let ?k = "g 0 mod 2 ^ 53"
  have a: "(real ?k / 2 ^ 53 < 8 / 10) = (?k \<le> 7205759403792793)"
  proof -
    have "(real ?k / 2 ^ 53 < 8 / 10) = (real ?k * 10 < 8 * 2 ^ 53)"
      by (simp add: field_simps)
    also have "\<dots> = (?k * 10 < 8 * 2 ^ 53)"
      by (metis (mono_tags, lifting) of_nat_less_iff of_nat_mult of_nat_numeral of_nat_power)
    also have "\<dots> = (?k \<le> 7205759403792793)"
      by simp arith
    finally show ?thesis .
  qed
  have b: "(real ?k / 2 ^ 53 < 7205759403792794 / 2 ^ 53) = (?k \<le> 7205759403792793)"
  proof -
    have "(real ?k / 2 ^ 53 < 7205759403792794 / 2 ^ 53) = (real ?k < 7205759403792794)"
      by (simp add: field_simps)
    also have "\<dots> = (?k < 7205759403792794)"
      by (metis (mono_tags, lifting) of_nat_less_iff of_nat_numeral)
    also have "\<dots> = (?k \<le> 7205759403792793)"
      by arith
    finally show ?thesis .
  qed
  show ?thesis by (simp only: random_random_def fst_conv a b)
qed

subsection \<open>The payoff table\<close>

lemma decisions_distinct:
  "Defend \<noteq> DoNotDefend" "Defend \<noteq> Attack" "Defend \<noteq> DoNotAttack"
  "DoNotDefend \<noteq> Attack" "DoNotDefend \<noteq> DoNotAttack" "Attack \<noteq> DoNotAttack"
  by (simp_all add: Defend_def DoNotDefend_def Attack_def DoNotAttack_def)

lemma payoff_matrix_values:
  "payoff_matrix (Defend, DoNotAttack) = Some (3, 3)"
  "payoff_matrix (Defend, Attack) = Some (- 2, 1)"
  "payoff_matrix (DoNotDefend, Attack) = Some (- 8, 8)"
  "payoff_matrix (DoNotDefend, DoNotAttack) = Some (4, 4)"
  using decisions_distinct by (simp_all add: payoff_matrix_def)

lemma dom_payoff_matrix:
  "dom payoff_matrix = {Defend, DoNotDefend} \<times> {Attack, DoNotAttack}"
  by (auto simp add: payoff_matrix_def)

lemma play_round_KeyError:
  assumes "sa (history s) g = (Inr da, g1)" and "sb (history s) g1 = (Inr db, g2)"
    and "payoff_matrix (da, db) = None"
  shows "play_round sa sb (s, g) = (Inl KeyError, s, g2)"
  using assms by (simp add: play_round_def)

subsection \<open>The first move of \<open>EnhancedTitForTat\<close>\<close>

text \<open>
  Claim C7. On the empty history \<open>EnhancedTitForTat.make_decision\<close> returns the
  cooperative decision of its role, Defend for a defender and DoNotAttack for an
  attacker, and reads no draw: the random source it leaves is the one it was given.
\<close>

theorem cooperative_first_move:
  "EnhancedTitForTat_make_decision self [] g =
     (Inr (if is_defender self then Defend else DoNotAttack), g)"
  by (simp add: EnhancedTitForTat_make_decision_def)

subsection \<open>A failed payoff lookup\<close>

text \<open>
  Claim C10. When both strategies return a decision and the pair is not a key of the
  payoff table, \<open>play_round\<close> raises \<open>KeyError\<close> and the session is as it was before the
  call: the history and both scores are unchanged, since the lookup comes before the
  updates.
\<close>

theorem failed_lookup_leaves_session:
  assumes "sa (history s) g = (Inr da, g1)" and "sb (history s) g1 = (Inr db, g2)"
    and "payoff_matrix (da, db) = None"
  shows "fst (play_round sa sb (s, g)) = Inl KeyError \<and>
         history (fst (snd (play_round sa sb (s, g)))) = history s \<and>
         score_defender (fst (snd (play_round sa sb (s, g)))) = score_defender s \<and>
         score_attacker (fst (snd (play_round sa sb (s, g)))) = score_attacker s \<and>
         fst (snd (play_round sa sb (s, g))) = s"
  using play_round_KeyError [of sa s g da g1 sb db g2] assms by simp

theorem failed_lookup_leaves_session_witness:
  "constant_strategy Attack (history NetworkSecurityGame_init) (constant_tape 0)
     = (Inr Attack, constant_tape 0) \<and>
   constant_strategy Attack (history NetworkSecurityGame_init) (constant_tape 0)
     = (Inr Attack, constant_tape 0) \<and>
   payoff_matrix (Attack, Attack) = None \<and>
   fst (play_round (constant_strategy Attack) (constant_strategy Attack)
          (NetworkSecurityGame_init, constant_tape 0)) = Inl KeyError \<and>
   fst (snd (play_round (constant_strategy Attack) (constant_strategy Attack)
          (NetworkSecurityGame_init, constant_tape 0))) = NetworkSecurityGame_init"
proof -
  have a: "constant_strategy Attack (history NetworkSecurityGame_init) (constant_tape 0)
     = (Inr Attack, constant_tape 0)"
    by (simp add: constant_strategy_def)
  have k: "payoff_matrix (Attack, Attack) = None"
    using decisions_distinct by (simp add: payoff_matrix_def)
  from failed_lookup_leaves_session [of "constant_strategy Attack" NetworkSecurityGame_init
      "constant_tape 0" Attack "constant_tape 0" "constant_strategy Attack" Attack
      "constant_tape 0"] a k
  show ?thesis by simp
qed

text \<open>
  Claim C8. The keys of the payoff table are exactly the four pairs of a defender's
  decision and an attacker's decision, each with its payoffs. For a pair of decisions
  outside these four, the lookup finds nothing, the round raises \<open>KeyError\<close> and so
  does a game of one round or more; no payoff is made up, and the session is left as
  it was.
\<close>

theorem payoff_lookup_complete_and_strict:
  assumes "sa (history s) g = (Inr da, g1)" and "sb (history s) g1 = (Inr db, g2)"
    and "(da, db) \<notin> {Defend, DoNotDefend} \<times> {Attack, DoNotAttack}"
    and "0 < N"
  shows "dom payoff_matrix = {Defend, DoNotDefend} \<times> {Attack, DoNotAttack} \<and>
         payoff_matrix (Defend, DoNotAttack) = Some (3, 3) \<and>
         payoff_matrix (Defend, Attack) = Some (- 2, 1) \<and>
         payoff_matrix (DoNotDefend, Attack) = Some (- 8, 8) \<and>
         payoff_matrix (DoNotDefend, DoNotAttack) = Some (4, 4) \<and>
         card (dom payoff_matrix) = 4 \<and>
         payoff_matrix (da, db) = None \<and>
         play_round sa sb (s, g) = (Inl KeyError, s, g2) \<and>
         run_game sa sb N (s, g) = (Inl KeyError, s, g2)"
proof -
  have none: "payoff_matrix (da, db) = None"
    using assms(3) dom_payoff_matrix by blast
  have pr: "play_round sa sb (s, g) = (Inl KeyError, s, g2)"
    using play_round_KeyError [of sa s g da g1 sb db g2] assms(1,2) none by simp
  obtain n where n: "nat N = Suc n"
    using assms(4) by (cases "nat N") auto
  have rg: "run_game sa sb N (s, g) = (Inl KeyError, s, g2)"
    by (simp add: run_game_def n pr)
  have c: "card (dom payoff_matrix) = 4"
    using decisions_distinct by (simp add: dom_payoff_matrix)
  show ?thesis
    using none pr rg c dom_payoff_matrix payoff_matrix_values by simp
qed

theorem payoff_lookup_complete_and_strict_witness:
  "constant_strategy Attack (history NetworkSecurityGame_init) (constant_tape 0)
     = (Inr Attack, constant_tape 0) \<and>
   constant_strategy Defend (history NetworkSecurityGame_init) (constant_tape 0)
     = (Inr Defend, constant_tape 0) \<and>
   (Attack, Defend) \<notin> {Defend, DoNotDefend} \<times> {Attack, DoNotAttack} \<and>
   (0::int) < 5 \<and>
   play_round (constant_strategy Attack) (constant_strategy Defend)
     (NetworkSecurityGame_init, constant_tape 0)
     = (Inl KeyError, NetworkSecurityGame_init, constant_tape 0) \<and>
   run_game (constant_strategy Attack) (constant_strategy Defend) 5
     (NetworkSecurityGame_init, constant_tape 0)
     = (Inl KeyError, NetworkSecurityGame_init, constant_tape 0)"
proof -
  have a: "constant_strategy Attack (history NetworkSecurityGame_init) (constant_tape 0)
     = (Inr Attack, constant_tape 0)"
    by (simp add: constant_strategy_def)
  have b: "constant_strategy Defend (history NetworkSecurityGame_init) (constant_tape 0)
     = (Inr Defend, constant_tape 0)"
    by (simp add: constant_strategy_def)
  have k: "(Attack, Defend) \<notin> {Defend, DoNotDefend} \<times> {Attack, DoNotAttack}"
    using decisions_distinct by auto
  have n: "(0::int) < 5" by simp
  from payoff_lookup_complete_and_strict [of "constant_strategy Attack" NetworkSecurityGame_init
      "constant_tape 0" Attack "constant_tape 0" "constant_strategy Defend" Defend
      "constant_tape 0" 5] a b k
  show ?thesis by simp
qed

subsection \<open>The constructors of the strategies\<close>

text \<open>
  Claim C3 says that a defense probability outside \<open>[0, 1]\<close> and a memory size that is
  not positive are refused when the strategy is constructed. They are not: the
  constructors return an object for the probabilities \<open>2\<close> and \<open>- 1\<close> and for the memory
  sizes \<open>0\<close> and \<open>- 1\<close>.
\<close>

theorem constructors_reject_counterexample:
  "\<not> isl (PassiveDefender_init 2) \<and> \<not> isl (PassiveDefender_init (- 1)) \<and>
   \<not> isl (EnhancedTitForTat_init True 0) \<and> \<not> isl (EnhancedTitForTat_init False (- 1))"
  by (simp add: PassiveDefender_init_def EnhancedTitForTat_init_def)

text \<open>
  Claim C3, amended. The constructors check nothing: \<open>PassiveDefender\<close> accepts every
  probability and \<open>EnhancedTitForTat\<close> every memory size, and the object holds what
  it was given.
\<close>

theorem constructors_accept_everything:
  "PassiveDefender_init p = Inr \<lparr>defense_prob = p\<rparr> \<and>
   EnhancedTitForTat_init d m =
     Inr \<lparr>is_defender = d, memory_size = m,
          role = (if d then defender_role else attacker_role), opponent_history = []\<rparr>"
  by (simp add: PassiveDefender_init_def EnhancedTitForTat_init_def)

text \<open>
  What an accepted value does shows only when a decision is made. A defender with the
  probability \<open>2\<close> always defends. With the memory size \<open>- 1\<close> the slice
  \<open>history[1:]\<close> of a history of one record is empty, and the decision raises
  \<open>ZeroDivisionError\<close>.
\<close>

lemma negative_memory_size_raises_at_use:
  assumes "EnhancedTitForTat_init d (- 1) = Inr self"
  shows "EnhancedTitForTat_make_decision self [x] g = (Inl ZeroDivisionError, g)"
proof -
  from assms have m: "memory_size self = - 1"
    by (auto simp add: EnhancedTitForTat_init_def)
  have "py_slice_from (- memory_size self) [x] = []"
    by (simp add: m py_slice_from_def)
  then have "EnhancedTitForTat_analyze_pattern self [x] = Inl ZeroDivisionError"
    by (simp add: EnhancedTitForTat_analyze_pattern_def)
  then show ?thesis
    by (simp add: EnhancedTitForTat_make_decision_def)
qed

lemma out_of_range_probability_at_use:
  assumes "PassiveDefender_init 2 = Inr self"
  shows "PassiveDefender_make_decision self h g = (Inr Defend, rng_tail g)"
proof -
  from assms have p: "defense_prob self = 2"
    by (auto simp add: PassiveDefender_init_def)
  have "real (g 0 mod 2 ^ 53) / 2 ^ 53 < 1" by simp
  then have "real (g 0 mod 2 ^ 53) / 2 ^ 53 < 2" by linarith
  then show ?thesis
    by (simp add: PassiveDefender_make_decision_def random_random_def p)
qed

subsection \<open>Rounds, history and scores\<close>

text \<open>
  A round either raises and leaves the session alone, or appends one record, numbered
  one more than the length of the history, and adds its payoffs to the scores. A run of
  rounds therefore appends records numbered consecutively and adds their payoffs.
\<close>

lemma play_round_cases:
  assumes "play_round sa sb (s, g) = (r, s', g')"
  shows "(\<exists>e. r = Inl e \<and> s' = s) \<or>
         (\<exists>da db pa pb. r = Inr () \<and> payoff_matrix (da, db) = Some (pa, pb) \<and>
            s' = \<lparr>history = history s @
                     [\<lparr>round = int (length (history s)) + 1, decisions = (da, db),
                       payoffs = (pa, pb)\<rparr>],
                   score_defender = score_defender s + pa,
                   score_attacker = score_attacker s + pb\<rparr>)"
  using assms
  by (auto simp add: play_round_def split: prod.splits sum.splits option.splits)

lemma run_rounds_effect:
  assumes "run_rounds sa sb n (s, g) = (r, s', g')"
  shows "\<exists>new. history s' = history s @ new \<and>
           score_defender s' = score_defender s + sum_list (payoffs_a new) \<and>
           score_attacker s' = score_attacker s + sum_list (payoffs_b new) \<and>
           map round new = map (\<lambda>k. int (length (history s)) + 1 + int k) [0..<length new] \<and>
           length new \<le> n \<and> (r = Inr () \<longrightarrow> length new = n)"
  using assms
proof (induction n arbitrary: s g)
  case 0
  then show ?case by (simp add: payoffs_a_def payoffs_b_def)
next
  case (Suc n)
  obtain r1 s1 g1 where pr: "play_round sa sb (s, g) = (r1, s1, g1)"
    by (metis prod_cases3)
  from play_round_cases [OF pr] show ?case
  proof (elim disjE exE conjE)
    fix e assume "r1 = Inl e" "s1 = s"
    with Suc.prems pr show ?thesis by (auto simp add: payoffs_a_def payoffs_b_def)
  next
    fix da db pa pb
    assume r1: "r1 = Inr ()"
      and s1: "s1 = \<lparr>history = history s @
                     [\<lparr>round = int (length (history s)) + 1, decisions = (da, db),
                       payoffs = (pa, pb)\<rparr>],
                   score_defender = score_defender s + pa,
                   score_attacker = score_attacker s + pb\<rparr>"
    from Suc.prems pr r1 have rest: "run_rounds sa sb n (s1, g1) = (r, s', g')" by simp
    from Suc.IH [OF rest] obtain new where
      h: "history s' = history s1 @ new" and
      sd: "score_defender s' = score_defender s1 + sum_list (payoffs_a new)" and
      sa: "score_attacker s' = score_attacker s1 + sum_list (payoffs_b new)" and
      ri: "map round new = map (\<lambda>k. int (length (history s1)) + 1 + int k) [0..<length new]" and
      ln: "length new \<le> n" and ok: "r = Inr () \<longrightarrow> length new = n"
      by blast
    let ?rec = "\<lparr>round = int (length (history s)) + 1, decisions = (da, db),
                       payoffs = (pa, pb)\<rparr>"
    have "map round (?rec # new) =
          map (\<lambda>k. int (length (history s)) + 1 + int k) [0..<length (?rec # new)]"
      using ri s1 by (simp add: upt_conv_Cons map_Suc_upt [symmetric] del: upt_Suc)
    then show ?thesis
      using h sd sa ln ok s1
      by (intro exI [of _ "?rec # new"]) (simp add: payoffs_a_def payoffs_b_def del: upt_Suc)
  qed
qed

lemma rounds_from_one: "map (\<lambda>k. 1 + int k) [0..<n] = [1..int n]"
proof (induction n)
  case 0
  show ?case by simp
next
  case (Suc n)
  have "[1..int (Suc n)] = [1..int n] @ [int n + 1]"
    using upto_rec2 [of 1 "int (Suc n)"] by simp
  with Suc show ?case by simp
qed

lemma fresh_game_effect:
  assumes "run_game sa sb N (NetworkSecurityGame_init, g) = (r, s', g')"
  shows "score_defender s' = sum_list (payoffs_a (history s'))"
    and "score_attacker s' = sum_list (payoffs_b (history s'))"
    and "map round (history s') = [1..int (length (history s'))]"
    and "length (history s') \<le> nat N"
    and "r = Inr () \<Longrightarrow> length (history s') = nat N"
proof -
  from assms have "run_rounds sa sb (nat N) (NetworkSecurityGame_init, g) = (r, s', g')"
    by (simp add: run_game_def)
  from run_rounds_effect [OF this] obtain new where
    h: "history s' = new" and
    sd: "score_defender s' = sum_list (payoffs_a new)" and
    sa: "score_attacker s' = sum_list (payoffs_b new)" and
    ri: "map round new = map (\<lambda>k. 1 + int k) [0..<length new]" and
    ln: "length new \<le> nat N" and ok: "r = Inr () \<longrightarrow> length new = nat N"
    by (auto simp add: NetworkSecurityGame_init_def)
  show "score_defender s' = sum_list (payoffs_a (history s'))" using h sd by simp
  show "score_attacker s' = sum_list (payoffs_b (history s'))" using h sa by simp
  show "map round (history s') = [1..int (length (history s'))]"
    using h ri by (simp add: rounds_from_one)
  show "length (history s') \<le> nat N" using h ln by simp
  show "r = Inr () \<Longrightarrow> length (history s') = nat N" using h ok by simp
qed

lemma constant_game_three:
  "run_game (constant_strategy Defend) (constant_strategy Attack) 3 (NetworkSecurityGame_init, g) =
     (Inr (),
      \<lparr>history =
         [\<lparr>round = 1, decisions = (Defend, Attack), payoffs = (- 2, 1)\<rparr>,
          \<lparr>round = 2, decisions = (Defend, Attack), payoffs = (- 2, 1)\<rparr>,
          \<lparr>round = 3, decisions = (Defend, Attack), payoffs = (- 2, 1)\<rparr>],
       score_defender = - 6, score_attacker = 3\<rparr>,
      g)"
  by (simp add: run_game_def eval_nat_numeral play_round_def constant_strategy_def
      payoff_matrix_values NetworkSecurityGame_init_def)

text \<open>
  Claim C1. In a game run on a fresh session, the score of each role is the sum of that
  role's payoffs over the records of the history, whether the run completes or an
  exception stops it; when it completes the history has one record for each of the \<open>N\<close>
  rounds. In particular, with strategies that always return Defend and Attack, three
  rounds complete with the payoffs \<open>(- 2, 1)\<close> each and the scores \<open>- 6\<close> and \<open>3\<close>.
\<close>

theorem score_additivity:
  assumes "run_game sa sb N (NetworkSecurityGame_init, g) = (r, s', g')"
  shows "score_defender s' = sum_list (payoffs_a (history s')) \<and>
         score_attacker s' = sum_list (payoffs_b (history s')) \<and>
         (r = Inr () \<longrightarrow> length (history s') = nat N) \<and>
         (sa = constant_strategy Defend \<and> sb = constant_strategy Attack \<and> N = 3 \<longrightarrow>
            r = Inr () \<and> payoffs_a (history s') = [- 2, - 2, - 2] \<and>
            payoffs_b (history s') = [1, 1, 1] \<and>
            score_defender s' = - 6 \<and> score_attacker s' = 3)"
proof -
  have "r = Inr () \<and> payoffs_a (history s') = [- 2, - 2, - 2] \<and>
        payoffs_b (history s') = [1, 1, 1] \<and> score_defender s' = - 6 \<and> score_attacker s' = 3"
    if "sa = constant_strategy Defend" "sb = constant_strategy Attack" "N = 3"
    using assms that by (auto simp add: constant_game_three payoffs_a_def payoffs_b_def)
  then show ?thesis
    using fresh_game_effect(1,2,5) [OF assms] by blast
qed

theorem score_additivity_witness:
  "run_game (constant_strategy Defend) (constant_strategy Attack) 3
     (NetworkSecurityGame_init, constant_tape 0) =
     (Inr (),
      \<lparr>history =
         [\<lparr>round = 1, decisions = (Defend, Attack), payoffs = (- 2, 1)\<rparr>,
          \<lparr>round = 2, decisions = (Defend, Attack), payoffs = (- 2, 1)\<rparr>,
          \<lparr>round = 3, decisions = (Defend, Attack), payoffs = (- 2, 1)\<rparr>],
       score_defender = - 6, score_attacker = 3\<rparr>,
      constant_tape 0) \<and>
   (- 6 :: int) = sum_list (payoffs_a
         [\<lparr>round = 1, decisions = (Defend, Attack), payoffs = (- 2, 1)\<rparr>,
          \<lparr>round = 2, decisions = (Defend, Attack), payoffs = (- 2, 1)\<rparr>,
          \<lparr>round = 3, decisions = (Defend, Attack), payoffs = (- 2, 1)\<rparr>]) \<and>
   (3 :: int) = sum_list (payoffs_b
         [\<lparr>round = 1, decisions = (Defend, Attack), payoffs = (- 2, 1)\<rparr>,
          \<lparr>round = 2, decisions = (Defend, Attack), payoffs = (- 2, 1)\<rparr>,
          \<lparr>round = 3, decisions = (Defend, Attack), payoffs = (- 2, 1)\<rparr>])"
  using score_additivity [OF constant_game_three [of "constant_tape 0"]]
    constant_game_three [of "constant_tape 0"]
  by simp

text \<open>
  Claim C2. After a game of \<open>N\<close> rounds that completes on a fresh session, the history
  has exactly \<open>N\<close> records, numbered \<open>1, ..., N\<close> in this order, hence strictly
  increasing. A round and a game only append: the history before is a prefix of the
  history after, whatever the session, the strategies and the outcome.
\<close>

theorem history_append_invariant:
  assumes "run_game sa sb N (NetworkSecurityGame_init, g) = (Inr (), s', g')"
  shows "length (history s') = nat N \<and>
         map round (history s') = [1..N] \<and>
         sorted_wrt (<) (map round (history s')) \<and>
         prefix (history s) (history (fst (snd (play_round sa sb (s, g0))))) \<and>
         prefix (history s) (history (fst (snd (run_game sa sb M (s, g0)))))"
proof -
  have len: "length (history s') = nat N"
    using fresh_game_effect(5) [OF assms] by simp
  have "map round (history s') = [1..int (nat N)]"
    using fresh_game_effect(3) [OF assms] len by simp
  moreover have "[1..int (nat N)] = [1..N]"
    by (cases "0 \<le> N") simp_all
  ultimately have idx: "map round (history s') = [1..N]" by simp
  obtain r1 s1 g1 where pr: "play_round sa sb (s, g0) = (r1, s1, g1)"
    by (metis prod_cases3)
  have p1: "prefix (history s) (history (fst (snd (play_round sa sb (s, g0)))))"
    using play_round_cases [OF pr] pr by auto
  obtain r2 s2 g2 where rg: "run_rounds sa sb (nat M) (s, g0) = (r2, s2, g2)"
    by (metis prod_cases3)
  have p2: "prefix (history s) (history (fst (snd (run_game sa sb M (s, g0)))))"
    using run_rounds_effect [OF rg] rg by (auto simp add: run_game_def)
  show ?thesis using len idx p1 p2 by simp
qed

theorem history_append_invariant_witness:
  "run_game (constant_strategy Defend) (constant_strategy Attack) 3
     (NetworkSecurityGame_init, constant_tape 0) =
     (Inr (),
      \<lparr>history =
         [\<lparr>round = 1, decisions = (Defend, Attack), payoffs = (- 2, 1)\<rparr>,
          \<lparr>round = 2, decisions = (Defend, Attack), payoffs = (- 2, 1)\<rparr>,
          \<lparr>round = 3, decisions = (Defend, Attack), payoffs = (- 2, 1)\<rparr>],
       score_defender = - 6, score_attacker = 3\<rparr>,
      constant_tape 0) \<and>
   map round
         [\<lparr>round = 1, decisions = (Defend, Attack), payoffs = (- 2, 1)\<rparr>,
          \<lparr>round = 2, decisions = (Defend, Attack), payoffs = (- 2, 1)\<rparr>,
          \<lparr>round = 3, decisions = (Defend, Attack), payoffs = (- 2, 1)\<rparr>] = [1..3]"
  using history_append_invariant [OF constant_game_three [of "constant_tape 0"]]
    constant_game_three [of "constant_tape 0"]
  by simp

subsection \<open>The aggressive rate of \<open>EnhancedTitForTat\<close>\<close>

text \<open>
  For a positive memory size \<open>m\<close> the slice \<open>history[-m:]\<close> is the window of the
  specification, and the two readings of a record agree.
\<close>

lemma py_slice_from_window:
  assumes "0 < m"
  shows "py_slice_from (- m) h = spec_window (nat m) h"
proof -
  have "nat (max (- m + int (length h)) 0) = length h - min (nat m) (length h)"
    using assms by linarith
  then show ?thesis
    using assms by (simp add: py_slice_from_def spec_window_def Let_def)
qed

lemma length_spec_window: "length (spec_window m h) = min m (length h)"
  by (simp add: spec_window_def)

lemma opponent_move_spec: "opponent_move self = spec_opponent_action (is_defender self)"
  by (rule ext) (simp add: opponent_move_def spec_opponent_action_def)

lemma is_aggressive_spec: "is_aggressive self = spec_aggressive (is_defender self)"
  by (rule ext) (simp add: is_aggressive_def spec_aggressive_def)

lemma analyze_pattern_rate:
  assumes "h \<noteq> []" and "0 < memory_size self"
  shows "EnhancedTitForTat_analyze_pattern self h =
           Inr (Some (spec_aggressiveRate (is_defender self) (nat (memory_size self)) h))"
proof -
  have "length (spec_window (nat (memory_size self)) h) \<noteq> 0"
    using assms by (simp add: length_spec_window)
  then have "spec_window (nat (memory_size self)) h \<noteq> []"
    by simp
  then show ?thesis
    using assms
    by (simp add: EnhancedTitForTat_analyze_pattern_def Let_def py_slice_from_window
        length_spec_window opponent_move_spec is_aggressive_spec spec_aggressiveRate_def)
qed

text \<open>
  Claim C6. For a non-empty history and a positive memory size, \<open>analyze_pattern\<close>
  returns the number of aggressive opponent decisions among the last
  \<open>min(memory_size, |history|)\<close> records divided by that number of records. In
  particular, with memory size 3 and a history of one or two records, the rate is taken
  over the whole history and divided by its length, not by 3.
\<close>

theorem windowed_aggressive_rate:
  assumes "h \<noteq> []" and "0 < memory_size self"
  shows "EnhancedTitForTat_analyze_pattern self h =
           Inr (Some (spec_aggressiveRate (is_defender self) (nat (memory_size self)) h)) \<and>
         length (spec_window (nat (memory_size self)) h) = min (nat (memory_size self)) (length h) \<and>
         (memory_size self = 3 \<and> length h \<le> 2 \<longrightarrow>
            EnhancedTitForTat_analyze_pattern self h =
              Inr (Some (real (length (filter (is_aggressive self) (map (opponent_move self) h)))
                         / real (length h))))"
proof -
  have "EnhancedTitForTat_analyze_pattern self h =
              Inr (Some (real (length (filter (is_aggressive self) (map (opponent_move self) h)))
                         / real (length h)))"
    if "memory_size self = 3" "length h \<le> 2"
  proof -
    have "spec_window (nat (memory_size self)) h = h"
      using that by (simp add: spec_window_def)
    moreover have "min (nat (memory_size self)) (length h) = length h"
      using that by simp
    ultimately show ?thesis
      using analyze_pattern_rate [OF assms]
      by (simp add: spec_aggressiveRate_def opponent_move_spec is_aggressive_spec)
  qed
  then show ?thesis
    using analyze_pattern_rate [OF assms] length_spec_window by blast
qed

theorem windowed_aggressive_rate_witness:
  "sample_history \<noteq> [] \<and> 0 < memory_size sample_defender \<and>
   EnhancedTitForTat_analyze_pattern sample_defender sample_history = Inr (Some (1 / 2)) \<and>
   spec_aggressiveRate True 3 sample_history = 1 / 2"
proof -
  have a: "sample_history \<noteq> []" by (simp add: sample_history_def)
  have b: "0 < memory_size sample_defender" by (simp add: sample_defender_def)
  have c: "spec_aggressiveRate True 3 sample_history = 1 / 2"
    using decisions_distinct
    by (simp add: spec_aggressiveRate_def spec_window_def sample_history_def
        spec_opponent_action_def spec_aggressive_def)
  from windowed_aggressive_rate [OF a b] a b c show ?thesis
    by (simp add: sample_defender_def)
qed

subsection \<open>The defender under attack\<close>

text \<open>
  Claim C5. For a non-empty history whose last record holds Attack as the attacker's
  decision, \<open>EnhancedTitForTat\<close> as a defender (with a positive memory size) returns
  Defend whatever the random source, and reads no draw: the random source it leaves is
  the one it was given.
\<close>

theorem defend_after_attack:
  assumes "is_defender self" and "h \<noteq> []" and "snd (decisions (last h)) = Attack"
    and "0 < memory_size self"
  shows "EnhancedTitForTat_make_decision self h g = (Inr Defend, g)"
  using assms analyze_pattern_rate [OF assms(2,4)]
  by (simp add: EnhancedTitForTat_make_decision_def opponent_move_def)

theorem defend_after_attack_witness:
  "is_defender sample_defender \<and> sample_history \<noteq> [] \<and>
   snd (decisions (last sample_history)) = Attack \<and> 0 < memory_size sample_defender \<and>
   EnhancedTitForTat_make_decision sample_defender sample_history (constant_tape 0)
     = (Inr Defend, constant_tape 0) \<and>
   EnhancedTitForTat_make_decision sample_defender sample_history (constant_tape 7)
     = (Inr Defend, constant_tape 7)"
proof -
  have a: "is_defender sample_defender" by (simp add: sample_defender_def)
  have b: "sample_history \<noteq> []" by (simp add: sample_history_def)
  have c: "snd (decisions (last sample_history)) = Attack" by (simp add: sample_history_def)
  have d: "0 < memory_size sample_defender" by (simp add: sample_defender_def)
  from defend_after_attack [OF a b c d] a b c d show ?thesis by simp
qed

subsection \<open>A defender that always defends against the random attacker\<close>

text \<open>
  A draw of \<open>random.random()\<close> is below 1, so a defender with probability 1 defends in
  every round; the random attacker attacks when its draw is even. The defender reads
  the first draw of a round and the attacker the second.
\<close>

lemma sure_defender_decision:
  "PassiveDefender_make_decision sure_defender h g = (Inr Defend, rng_tail g)"
proof -
  have "real (g 0 mod 2 ^ 53) / 2 ^ 53 < 1" by simp
  then show ?thesis
    by (simp add: PassiveDefender_make_decision_def sure_defender_def random_random_def)
qed

lemma RandomAttacker_decision:
  "RandomAttacker_make_decision h g =
     (Inr (if even (g 0) then Attack else DoNotAttack), rng_tail g)"
proof (cases "even (g 0)")
  case True
  then have "g 0 mod Suc (Suc 0) = 0" by presburger
  then show ?thesis using True
    by (simp add: RandomAttacker_make_decision_def random_choice_def)
next
  case False
  then have "g 0 mod Suc (Suc 0) = Suc 0" by presburger
  then show ?thesis using False
    by (simp add: RandomAttacker_make_decision_def random_choice_def)
qed

lemma sure_defender_round:
  "play_round (PassiveDefender_make_decision sure_defender) RandomAttacker_make_decision (s, g) =
     (Inr (),
      \<lparr>history = history s @
         [\<lparr>round = int (length (history s)) + 1,
           decisions = (Defend, if even (g 1) then Attack else DoNotAttack),
           payoffs = (if even (g 1) then (- 2, 1) else (3, 3))\<rparr>],
       score_defender = score_defender s + (if even (g 1) then - 2 else 3),
       score_attacker = score_attacker s + (if even (g 1) then 1 else 3)\<rparr>,
      rng_tail (rng_tail g))"
  by (simp add: play_round_def sure_defender_decision RandomAttacker_decision
      payoff_matrix_values rng_tail_def)

lemma sure_defender_rounds:
  assumes "run_rounds (PassiveDefender_make_decision sure_defender) RandomAttacker_make_decision
             n (s, g) = (r, s', g')"
  shows "r = Inr () \<and> (\<exists>new. history s' = history s @ new \<and> length new = n \<and>
           list_all defended_record new)"
  using assms
proof (induction n arbitrary: s g)
  case 0
  then show ?case by simp
next
  case (Suc n)
  let ?x = "\<lparr>round = int (length (history s)) + 1,
           decisions = (Defend, if even (g 1) then Attack else DoNotAttack),
           payoffs = (if even (g 1) then (- 2, 1) else (3, 3))\<rparr>"
  let ?s1 = "\<lparr>history = history s @ [?x],
       score_defender = score_defender s + (if even (g 1) then - 2 else 3),
       score_attacker = score_attacker s + (if even (g 1) then 1 else 3)\<rparr>"
  from Suc.prems have
    "run_rounds (PassiveDefender_make_decision sure_defender) RandomAttacker_make_decision
       n (?s1, rng_tail (rng_tail g)) = (r, s', g')"
    by (simp add: sure_defender_round)
  from Suc.IH [OF this] obtain new where r: "r = Inr ()" and
    h: "history s' = history ?s1 @ new" and l: "length new = n" and
    a: "list_all defended_record new"
    by blast
  have "defended_record ?x" by (simp add: defended_record_def)
  with h l a have "history s' = history s @ (?x # new) \<and> length (?x # new) = Suc n \<and>
      list_all defended_record (?x # new)"
    by simp
  with r show ?case by blast
qed

lemma cumsum_from_bounds:
  assumes "list_all (\<lambda>x. - 2 \<le> x \<and> x \<le> 3) xs" and "t \<in> set (cumsum_from a xs)"
  shows "a - 2 * int (length xs) \<le> t \<and> t \<le> a + 3 * int (length xs)"
  using assms
proof (induction xs arbitrary: a)
  case Nil
  then show ?case by simp
next
  case (Cons x xs)
  from Cons.prems(2) have "t = a + x \<or> t \<in> set (cumsum_from (a + x) xs)" by simp
  then show ?case
  proof
    assume "t = a + x"
    with Cons.prems(1) show ?thesis by simp
  next
    assume "t \<in> set (cumsum_from (a + x) xs)"
    with Cons.IH [of "a + x"] Cons.prems(1) show ?thesis by simp
  qed
qed

lemma sum_list_bounds:
  assumes "list_all (\<lambda>x. - 2 \<le> x \<and> x \<le> 3) xs"
  shows "- 2 * int (length xs) \<le> sum_list xs \<and> sum_list xs \<le> 3 * int (length xs)"
  using assms by (induction xs) auto

lemma defended_payoffs:
  assumes "list_all defended_record h"
  shows "list_all (\<lambda>x. - 2 \<le> x \<and> x \<le> 3) (payoffs_a h)"
  using assms by (induction h) (auto simp add: payoffs_a_def defended_record_def)

lemma rng_tail_constant: "rng_tail (constant_tape k) = constant_tape k"
  by (simp add: rng_tail_def constant_tape_def)

lemma all_attack_game:
  "score_defender (fst (snd (run_game (PassiveDefender_make_decision sure_defender)
      RandomAttacker_make_decision 10 (NetworkSecurityGame_init, constant_tape 0)))) = - 20"
  by (simp add: run_game_def eval_nat_numeral sure_defender_round rng_tail_constant
      NetworkSecurityGame_init_def) (simp add: constant_tape_def)

text \<open>
  Claim C4 says that in ten rounds of \<open>PassiveDefender(1.0)\<close> against \<open>RandomAttacker\<close>
  the defender's cumulative score is non-negative for every sequence of attacks. It is
  not: when every draw is 0 the attacker attacks in all ten rounds and the defender
  ends with \<open>- 20\<close>.
\<close>

theorem nonnegative_score_counterexample:
  "PassiveDefender_init 1 = Inr sure_defender \<and>
   \<not> 0 \<le> score_defender (fst (snd (run_game (PassiveDefender_make_decision sure_defender)
      RandomAttacker_make_decision 10 (NetworkSecurityGame_init, constant_tape 0))))"
  by (simp add: all_attack_game) (simp add: PassiveDefender_init_def sure_defender_def)

text \<open>
  Claim C4, amended. Ten rounds of \<open>PassiveDefender(1.0)\<close> against \<open>RandomAttacker\<close> on
  a fresh session complete for every random source; the defender defends in every
  round; the payoffs of every round are \<open>(3, 3)\<close> or \<open>(- 2, 1)\<close>; the defender's final
  score lies between \<open>- 20\<close> and \<open>30\<close> (it can be negative), and every running total of
  its payoffs is at least \<open>- 20\<close>.
\<close>

theorem always_defend_scenario:
  assumes "PassiveDefender_init 1 = Inr self"
    and "run_game (PassiveDefender_make_decision self) RandomAttacker_make_decision 10
           (NetworkSecurityGame_init, g) = (r, s', g')"
  shows "r = Inr () \<and> length (history s') = 10 \<and>
         (\<forall>x \<in> set (history s').
            fst (decisions x) = Defend \<and> (payoffs x = (3, 3) \<or> payoffs x = (- 2, 1))) \<and>
         - 20 \<le> score_defender s' \<and> score_defender s' \<le> 30 \<and>
         (\<forall>t \<in> set (cumsum (payoffs_a (history s'))). - 20 \<le> t)"
proof -
  from assms(1) have self: "self = sure_defender"
    by (simp add: PassiveDefender_init_def sure_defender_def)
  from assms(2) have run: "run_rounds (PassiveDefender_make_decision sure_defender)
      RandomAttacker_make_decision 10 (NetworkSecurityGame_init, g) = (r, s', g')"
    by (simp add: run_game_def self)
  from sure_defender_rounds [OF run] have r: "r = Inr ()" and len: "length (history s') = 10"
    and all: "list_all defended_record (history s')"
    by (auto simp add: NetworkSecurityGame_init_def)
  have pay: "list_all (\<lambda>x. - 2 \<le> x \<and> x \<le> 3) (payoffs_a (history s'))"
    by (rule defended_payoffs [OF all])
  have lenp: "length (payoffs_a (history s')) = 10"
    using len by (simp add: payoffs_a_def)
  have score: "score_defender s' = sum_list (payoffs_a (history s'))"
    using fresh_game_effect(1) [OF assms(2)] .
  have b: "- 20 \<le> score_defender s' \<and> score_defender s' \<le> 30"
    using sum_list_bounds [OF pay] lenp score by simp
  have c: "- 20 \<le> t" if "t \<in> set (cumsum (payoffs_a (history s')))" for t
    using cumsum_from_bounds [OF pay, of t 0] that lenp by (simp add: cumsum_def)
  have d: "fst (decisions x) = Defend \<and> (payoffs x = (3, 3) \<or> payoffs x = (- 2, 1))"
    if "x \<in> set (history s')" for x
    using all that by (auto simp add: list_all_iff defended_record_def)
  show ?thesis using r len b c d by blast
qed

theorem always_defend_scenario_witness:
  "PassiveDefender_init 1 = Inr sure_defender \<and>
   fst (run_game (PassiveDefender_make_decision sure_defender)
      RandomAttacker_make_decision 10 (NetworkSecurityGame_init, constant_tape 0)) = Inr () \<and>
   length (history (fst (snd (run_game (PassiveDefender_make_decision sure_defender)
      RandomAttacker_make_decision 10 (NetworkSecurityGame_init, constant_tape 0))))) = 10 \<and>
   score_defender (fst (snd (run_game (PassiveDefender_make_decision sure_defender)
      RandomAttacker_make_decision 10 (NetworkSecurityGame_init, constant_tape 0)))) = - 20"
proof -
  let ?X = "run_game (PassiveDefender_make_decision sure_defender)
      RandomAttacker_make_decision 10 (NetworkSecurityGame_init, constant_tape 0)"
  have a: "PassiveDefender_init 1 = Inr sure_defender"
    by (simp add: PassiveDefender_init_def sure_defender_def)
  have b: "?X = (fst ?X, fst (snd ?X), snd (snd ?X))" by simp
  from always_defend_scenario [OF a b] a all_attack_game show ?thesis by simp
qed

subsection \<open>The draws a game reads\<close>

text \<open>
  A decision of each of the three classes is determined by the history, the object's
  fields and at most the next draw, and it consumes at most that draw. A round of two
  such strategies is therefore determined by the session and the next two draws, and
  a game of \<open>n\<close> rounds by the session and the next \<open>2 * n\<close> draws.
\<close>

lemma agree_upto_iff: "agree_upto k g1 g2 \<longleftrightarrow> (\<forall>i<k. g1 i = g2 i)"
  by (auto simp add: agree_upto_def)

lemma agree_upto_mono: "agree_upto k g1 g2 \<Longrightarrow> j \<le> k \<Longrightarrow> agree_upto j g1 g2"
  by (simp add: agree_upto_iff)

lemma agree_upto_drop:
  "agree_upto (j + k) g1 g2 \<Longrightarrow> agree_upto j (rng_drop k g1) (rng_drop k g2)"
  by (simp add: agree_upto_iff rng_drop_def)

lemma rng_drop_0: "rng_drop 0 g = g"
  by (simp add: rng_drop_def)

lemma rng_drop_1: "rng_drop (Suc 0) g = rng_tail g"
  by (simp add: rng_drop_def rng_tail_def)

lemma rng_drop_drop: "rng_drop j (rng_drop k g) = rng_drop (j + k) g"
  by (simp add: rng_drop_def add.assoc)

lemma EnhancedTitForTat_reads:
  assumes "g1 0 = g2 0"
  shows "fst (EnhancedTitForTat_make_decision self h g1) =
           fst (EnhancedTitForTat_make_decision self h g2) \<and>
         (snd (EnhancedTitForTat_make_decision self h g1) = g1 \<and>
            snd (EnhancedTitForTat_make_decision self h g2) = g2 \<or>
          snd (EnhancedTitForTat_make_decision self h g1) = rng_tail g1 \<and>
            snd (EnhancedTitForTat_make_decision self h g2) = rng_tail g2)"
  using assms
  by (auto simp add: EnhancedTitForTat_make_decision_def Let_def random_random_def
      split: sum.splits bool.splits prod.splits)

lemma policy_reads:
  assumes "g1 0 = g2 0"
  shows "fst (policy_strategy p h g1) = fst (policy_strategy p h g2) \<and>
         (\<exists>k\<le>1. snd (policy_strategy p h g1) = rng_drop k g1 \<and>
                 snd (policy_strategy p h g2) = rng_drop k g2)"
proof (cases p)
  case (Passive self)
  have "snd (policy_strategy p h g1) = rng_drop 1 g1 \<and>
        snd (policy_strategy p h g2) = rng_drop 1 g2"
    using Passive by (simp add: PassiveDefender_make_decision_def random_random_def rng_drop_1)
  moreover have "fst (policy_strategy p h g1) = fst (policy_strategy p h g2)"
    using Passive assms by (simp add: PassiveDefender_make_decision_def random_random_def)
  ultimately show ?thesis by blast
next
  case Random
  have "snd (policy_strategy p h g1) = rng_drop 1 g1 \<and>
        snd (policy_strategy p h g2) = rng_drop 1 g2"
    using Random by (simp add: RandomAttacker_make_decision_def random_choice_def rng_drop_1)
  moreover have "fst (policy_strategy p h g1) = fst (policy_strategy p h g2)"
    using Random assms by (simp add: RandomAttacker_make_decision_def random_choice_def)
  ultimately show ?thesis by blast
next
  case (TitForTat self)
  from EnhancedTitForTat_reads [of g1 g2 self h] assms
  have eq: "fst (policy_strategy p h g1) = fst (policy_strategy p h g2)"
    and "snd (policy_strategy p h g1) = rng_drop 0 g1 \<and>
            snd (policy_strategy p h g2) = rng_drop 0 g2 \<or>
          snd (policy_strategy p h g1) = rng_drop 1 g1 \<and>
            snd (policy_strategy p h g2) = rng_drop 1 g2"
    using TitForTat by (simp_all add: rng_drop_0 rng_drop_1)
  then show ?thesis
  proof (elim disjE)
    assume "snd (policy_strategy p h g1) = rng_drop 0 g1 \<and>
            snd (policy_strategy p h g2) = rng_drop 0 g2"
    with eq show ?thesis by (intro conjI exI [of _ 0]) simp_all
  next
    assume "snd (policy_strategy p h g1) = rng_drop 1 g1 \<and>
            snd (policy_strategy p h g2) = rng_drop 1 g2"
    with eq show ?thesis by (intro conjI exI [of _ 1]) simp_all
  qed
qed

lemma play_round_reads:
  assumes "agree_upto 2 g1 g2"
  shows "fst (play_round (policy_strategy pa) (policy_strategy pb) (s, g1)) =
           fst (play_round (policy_strategy pa) (policy_strategy pb) (s, g2)) \<and>
         fst (snd (play_round (policy_strategy pa) (policy_strategy pb) (s, g1))) =
           fst (snd (play_round (policy_strategy pa) (policy_strategy pb) (s, g2))) \<and>
         (\<exists>k\<le>2.
            snd (snd (play_round (policy_strategy pa) (policy_strategy pb) (s, g1))) =
              rng_drop k g1 \<and>
            snd (snd (play_round (policy_strategy pa) (policy_strategy pb) (s, g2))) =
              rng_drop k g2)"
proof -
  have h0: "g1 0 = g2 0" and h1: "g1 1 = g2 1"
    using assms by (simp_all add: agree_upto_iff)
  obtain ra ga1 where a1: "policy_strategy pa (history s) g1 = (ra, ga1)"
    by (cases "policy_strategy pa (history s) g1")
  obtain ra' ga2 where a2: "policy_strategy pa (history s) g2 = (ra', ga2)"
    by (cases "policy_strategy pa (history s) g2")
  from policy_reads [of g1 g2 pa "history s"] h0 a1 a2
  obtain ka where ra: "ra' = ra" and ka: "ka \<le> 1"
    and ga1: "ga1 = rng_drop ka g1" and ga2: "ga2 = rng_drop ka g2"
    by auto
  show ?thesis
  proof (cases ra)
    case (Inl e)
    have "ka \<le> 2" using ka by simp
    with Inl a1 a2 ra ga1 ga2 show ?thesis
      by (auto simp add: play_round_def)
  next
    case (Inr da)
    have "ga1 0 = ga2 0"
      using ga1 ga2 h0 h1 ka by (cases ka) (simp_all add: rng_drop_def)
    obtain rb gb1 where b1: "policy_strategy pb (history s) ga1 = (rb, gb1)"
      by (cases "policy_strategy pb (history s) ga1")
    obtain rb' gb2 where b2: "policy_strategy pb (history s) ga2 = (rb', gb2)"
      by (cases "policy_strategy pb (history s) ga2")
    from policy_reads [of ga1 ga2 pb "history s"] \<open>ga1 0 = ga2 0\<close> b1 b2
    obtain kb where rb: "rb' = rb" and kb: "kb \<le> 1"
      and gb1: "gb1 = rng_drop kb ga1" and gb2: "gb2 = rng_drop kb ga2"
      by auto
    have k: "kb + ka \<le> 2" using ka kb by simp
    have t1: "gb1 = rng_drop (kb + ka) g1" and t2: "gb2 = rng_drop (kb + ka) g2"
      using gb1 gb2 ga1 ga2 by (simp_all add: rng_drop_drop)
    have res: "play_round (policy_strategy pa) (policy_strategy pb) (s, g2) =
       (fst (play_round (policy_strategy pa) (policy_strategy pb) (s, g1)),
        fst (snd (play_round (policy_strategy pa) (policy_strategy pb) (s, g1))), gb2)"
      and tape: "snd (snd (play_round (policy_strategy pa) (policy_strategy pb) (s, g1))) = gb1"
      using Inr a1 a2 ra b1 b2 rb
      by (auto simp add: play_round_def split: sum.splits option.splits)
    from res tape t1 t2 k show ?thesis by auto
  qed
qed

lemma run_rounds_reads:
  assumes "agree_upto (2 * n) g1 g2"
  shows "fst (run_rounds (policy_strategy pa) (policy_strategy pb) n (s, g1)) =
           fst (run_rounds (policy_strategy pa) (policy_strategy pb) n (s, g2)) \<and>
         fst (snd (run_rounds (policy_strategy pa) (policy_strategy pb) n (s, g1))) =
           fst (snd (run_rounds (policy_strategy pa) (policy_strategy pb) n (s, g2)))"
  using assms
proof (induction n arbitrary: s g1 g2)
  case 0
  show ?case by simp
next
  case (Suc n)
  let ?P1 = "play_round (policy_strategy pa) (policy_strategy pb) (s, g1)"
  let ?P2 = "play_round (policy_strategy pa) (policy_strategy pb) (s, g2)"
  have "agree_upto 2 g1 g2"
    using Suc.prems by (rule agree_upto_mono) simp
  from play_round_reads [OF this, of pa pb s]
  obtain k where r: "fst ?P1 = fst ?P2" and st: "fst (snd ?P1) = fst (snd ?P2)"
    and k: "k \<le> 2" and t1: "snd (snd ?P1) = rng_drop k g1"
    and t2: "snd (snd ?P2) = rng_drop k g2"
    by blast
  have "agree_upto (2 * n + k) g1 g2"
    using Suc.prems by (rule agree_upto_mono) (use k in simp)
  then have rest: "agree_upto (2 * n) (rng_drop k g1) (rng_drop k g2)"
    by (rule agree_upto_drop)
  obtain r1 s1 where p1: "?P1 = (r1, s1, rng_drop k g1)"
    using t1 by (metis prod.collapse)
  have p2: "?P2 = (r1, s1, rng_drop k g2)"
    using t2 r st p1 by (metis fst_conv snd_conv prod.collapse)
  show ?case
  proof (cases r1)
    case (Inl e)
    then show ?thesis
      using p1 p2 by simp
  next
    case (Inr u)
    then show ?thesis
      using p1 p2 Suc.IH [OF rest, of s1] by simp
  qed
qed

text \<open>
  A game of \<open>N\<close> rounds between objects of the three classes reads at most \<open>2 * N\<close>
  draws: two games from the same session whose random sources agree on these draws end
  the same way (both return or both raise the same exception) with the same history
  and the same two scores, whatever the sources draw later.
\<close>

lemma run_game_reads:
  assumes "agree_upto (2 * nat N) g1 g2"
  shows "fst (run_game (policy_strategy pa) (policy_strategy pb) N (s, g1)) =
           fst (run_game (policy_strategy pa) (policy_strategy pb) N (s, g2)) \<and>
         history (fst (snd (run_game (policy_strategy pa) (policy_strategy pb) N (s, g1)))) =
           history (fst (snd (run_game (policy_strategy pa) (policy_strategy pb) N (s, g2)))) \<and>
         score_defender (fst (snd (run_game (policy_strategy pa) (policy_strategy pb) N (s, g1)))) =
           score_defender (fst (snd (run_game (policy_strategy pa) (policy_strategy pb) N (s, g2)))) \<and>
         score_attacker (fst (snd (run_game (policy_strategy pa) (policy_strategy pb) N (s, g1)))) =
           score_attacker (fst (snd (run_game (policy_strategy pa) (policy_strategy pb) N (s, g2))))"
  using run_rounds_reads [OF assms, of pa pb s] by (simp add: run_game_def)

end
